theory Spec2Isabelle
  imports
    Main
    "HOL-Library.Sublist"
    "HOL-Library.AList"
    "HOL-Library.Char_ord"
    "HOL-Library.List_Lexorder"
begin

section \<open>Python values, dictionaries and errors\<close>

text \<open>
  The HubSpot source handles JSON-like records. A value is \<open>None\<close>, a boolean, an
  integer or a string; a dictionary is an association list in insertion order (Python
  dictionaries keep insertion order and have unique keys, which is
  \<open>distinct (map fst d)\<close>). Exceptions are values of \<open>py_error\<close>; a function that
  can raise returns \<open>py_error + 'a\<close>.
\<close>

datatype pyval = PyNone | PyBool bool | PyInt int | PyStr string

type_synonym pydict = "(string \<times> pyval) list"

datatype py_error = TypeError | KeyError | IndexError | ValueError string

text \<open>\<open>d.get(k)\<close>: the value stored under \<open>k\<close>, or \<open>None\<close>.\<close>

definition dict_get :: "pydict \<Rightarrow> string \<Rightarrow> pyval" where
  "dict_get d k = (case map_of d k of None \<Rightarrow> PyNone | Some v \<Rightarrow> v)"


text \<open>
  A dictionary display \<open>{k1: v1, k2: v2, ...}\<close> and \<open>d.update(other)\<close> store the
  items from left to right: a key already present keeps its position and takes the new
  value, a new key is appended.
\<close>

definition dict_update :: "pydict \<Rightarrow> pydict \<Rightarrow> pydict" where
  "dict_update d other = foldl (\<lambda>acc kv. AList.update (fst kv) (snd kv) acc) d other"

definition dict_display :: "pydict \<Rightarrow> pydict" where
  "dict_display items = dict_update [] items"

section \<open>Strings\<close>

text \<open>\<open>sep.join(xs)\<close>.\<close>

fun str_join :: "string \<Rightarrow> string list \<Rightarrow> string" where
  "str_join sep [] = []"
| "str_join sep [x] = x"
| "str_join sep (x # y # ys) = x @ sep @ str_join sep (y # ys)"

text \<open>
  \<open>s.split(sep)\<close> scans \<open>s\<close> from the left for non-overlapping occurrences of
  \<open>sep\<close>; \<open>split_from sep cur s\<close> is the scan with the current token \<open>cur\<close>.
  Python raises \<open>ValueError\<close> for an empty separator.
\<close>

function split_from :: "string \<Rightarrow> string \<Rightarrow> string \<Rightarrow> string list" where
  "split_from sep cur [] = [cur]"
| "split_from sep cur (c # cs) =
     (if sep \<noteq> [] \<and> prefix sep (c # cs)
      then cur # split_from sep [] (drop (length sep) (c # cs))
      else split_from sep (cur @ [c]) cs)"
  by pat_completeness auto
termination
  by (relation "measure (\<lambda>(sep, cur, s). length s)") auto

definition str_split :: "string \<Rightarrow> string \<Rightarrow> py_error + string list" where
  "str_split s sep =
     (if sep = [] then Inl (ValueError ''empty separator'') else Inr (split_from sep [] s))"

text \<open>\<open>s[i:j]\<close> for \<open>0 \<le> i\<close>, \<open>0 \<le> j\<close>: out-of-range bounds are clamped.\<close>

definition slice :: "string \<Rightarrow> nat \<Rightarrow> nat \<Rightarrow> string" where
  "slice s i j = take (j - i) (drop i s)"

text \<open>\<open>xs[i]\<close> for \<open>0 \<le> i\<close>: raises \<open>IndexError\<close> out of range.\<close>

definition list_item :: "'a list \<Rightarrow> nat \<Rightarrow> py_error + 'a" where
  "list_item xs i = (if i < length xs then Inr (xs ! i) else Inl IndexError)"

text \<open>\<open>str(n)\<close> for a natural number, as an f-string renders it.\<close>

definition digit_char :: "nat \<Rightarrow> char" where
  "digit_char d = ''0123456789'' ! d"

fun str_nat :: "nat \<Rightarrow> string" where
  "str_nat n = (if n < 10 then [digit_char n] else str_nat (n div 10) @ [digit_char (n mod 10)])"

declare str_nat.simps [simp del]

section \<open>Settings\<close>

definition MAX_PROPS_LENGTH :: nat where
  "MAX_PROPS_LENGTH = 2000"

definition STAGE_PROPERTY_PREFIX :: string where
  "STAGE_PROPERTY_PREFIX = ''hs_date_entered_''"

definition SOFT_DELETE_KEY :: string where
  "SOFT_DELETE_KEY = ''is_deleted''"

definition ARCHIVED_PARAM :: pydict where
  "ARCHIVED_PARAM = [(''archived'', PyBool True)]"

text \<open>The sentinel \<open>ALL\<close> of the settings (\<open>ALL\<close> is reserved syntax here).\<close>

definition ALL_props :: "pydict list" where
  "ALL_props = [[(''properties'', PyStr ''All'')]]"

definition CRM_OBJECT_ENDPOINTS :: "(string \<times> string) list" where
  "CRM_OBJECT_ENDPOINTS =
     [(''contact'', ''/crm/v3/objects/contacts?associations=deals,products,tickets,quotes''),
      (''company'', ''/crm/v3/objects/companies?associations=contacts,deals,products,tickets,quotes''),
      (''deal'', ''/crm/v3/objects/deals''),
      (''product'', ''/crm/v3/objects/products''),
      (''ticket'', ''/crm/v3/objects/tickets''),
      (''quote'', ''/crm/v3/objects/quotes''),
      (''owner'', ''/crm/v3/owners/'')]"

section \<open>Property resolution: \<open>fetch_props\<close>\<close>

text \<open>
  \<open>extract_properties_list\<close> iterates over \<open>props\<close> and reads \<open>prop.get("name")\<close>
  of every descriptor. Iterating over \<open>None\<close> raises \<open>TypeError\<close>.
\<close>

definition extract_properties_list :: "pydict list option \<Rightarrow> py_error + pyval list" where
  "extract_properties_list props =
     (case props of
        None \<Rightarrow> Inl TypeError
      | Some ds \<Rightarrow> Inr (map (\<lambda>prop. dict_get prop ''name'') ds))"

text \<open>
  \<open>",".join(sorted(list(set(props))))\<close> needs every element to be a string: a value
  of another type raises \<open>TypeError\<close>, in \<open>sorted\<close> when it is compared with a string
  and in \<open>join\<close> otherwise.
\<close>

fun as_strings :: "pyval list \<Rightarrow> py_error + string list" where
  "as_strings [] = Inr []"
| "as_strings (PyStr s # vs) =
     (case as_strings vs of Inl e \<Rightarrow> Inl e | Inr ss \<Rightarrow> Inr (s # ss))"
| "as_strings (v # vs) = Inl TypeError"

definition join_sorted_set :: "pyval list \<Rightarrow> py_error + string" where
  "join_sorted_set props =
     (case as_strings props of
        Inl e \<Rightarrow> Inl e
      | Inr names \<Rightarrow> Inr (str_join '','' (sorted_list_of_set (set names))))"

text \<open>The message of the \<open>ValueError\<close> raised for a property string that is too long.\<close>

definition too_long_message :: "string \<Rightarrow> string" where
  "too_long_message props =
     ''Your request to Hubspot is too long to process. '' @
     ''Maximum allowed query length is '' @ str_nat MAX_PROPS_LENGTH @ '' symbols, while '' @
     ''your list of properties `'' @ slice props 0 200 @ ''`... is '' @
     str_nat (length props) @ '' '' @
     ''symbols long. Use the `props` argument of the resource to '' @
     ''set the list of properties to extract from the endpoint.''"

text \<open>
  The property string before the length check (lines 350 to 360 of \<open>fetch_props\<close>).
  The parameter \<open>get_property_names\<close> is the catalog helper \<open>_get_property_names\<close>
  with the API key fixed: the property names of an object type.
\<close>

definition resolve_props ::
  "(string \<Rightarrow> string list) \<Rightarrow> string \<Rightarrow> pydict list option \<Rightarrow> bool \<Rightarrow> py_error + string"
where
  "resolve_props get_property_names object_type props include_custom_props =
     (case (if props = Some ALL_props
            then Inr (map PyStr (get_property_names object_type))
            else extract_properties_list props) of
        Inl e \<Rightarrow> Inl e
      | Inr names \<Rightarrow>
          join_sorted_set
            (if include_custom_props
             then names @ map PyStr
                    (filter (\<lambda>prop. \<not> prefix ''hs_'' prop) (get_property_names object_type))
             else names))"

definition fetch_props ::
  "(string \<Rightarrow> string list) \<Rightarrow> string \<Rightarrow> pydict list option \<Rightarrow> bool \<Rightarrow> py_error + string"
where
  "fetch_props get_property_names object_type props include_custom_props =
     (case resolve_props get_property_names object_type props include_custom_props of
        Inl e \<Rightarrow> Inl e
      | Inr props_str \<Rightarrow>
          if length props_str > MAX_PROPS_LENGTH
          then Inl (ValueError (too_long_message props_str))
          else Inr props_str)"

section \<open>The paged fetch primitive\<close>

text \<open>
  The HubSpot API is a parameter of the model: \<open>api endpoint params\<close> is the sequence
  of pages (lists of records) that the service returns for a request, with the API key
  fixed. A call of \<open>fetch_data\<close> is recorded as its endpoint, its parameters and its
  context.
\<close>

type_synonym page = "pydict list"

type_synonym api = "string \<Rightarrow> pydict option \<Rightarrow> page list"

type_synonym fetch_call = "string \<times> pydict option \<times> pydict option"

text \<open>
  Modelled from the spec: the helper \<open>fetch_data\<close> of \<open>hubspot/helpers.py\<close> is
  not among the sources. The spec gives it as the paged-fetch primitive that returns the
  record pages of a request in the order received, and has every record of a fetch that
  carries a provenance context take the context's fields (the \<open>is_deleted\<close> flag).
\<close>

definition fetch_data :: "api \<Rightarrow> string \<Rightarrow> pydict option \<Rightarrow> pydict option \<Rightarrow> page list" where
  "fetch_data api endpoint params context =
     (case context of
        None \<Rightarrow> api endpoint params
      | Some ctx \<Rightarrow> map (map (\<lambda>obj. dict_update obj ctx)) (api endpoint params))"

section \<open>Live and archived records: \<open>fetch_data_for_properties\<close>\<close>

text \<open>
  The generator yields the pages of the live fetch and then, when \<open>soft_delete\<close> is
  set, the pages of the archived fetch. The result is the pages in the order yielded,
  with the calls of \<open>fetch_data\<close> in the order issued. \<open>CRM_OBJECT_ENDPOINTS[object_type]\<close>
  raises \<open>KeyError\<close> for an unknown object type.
\<close>

definition fetch_data_for_properties ::
  "api \<Rightarrow> string \<Rightarrow> string \<Rightarrow> bool \<Rightarrow> py_error + (page list \<times> fetch_call list)"
where
  "fetch_data_for_properties api props object_type soft_delete =
     (let params = dict_display [(''properties'', PyStr props), (''limit'', PyInt 100)];
          context = (if soft_delete then Some (dict_display [(SOFT_DELETE_KEY, PyBool False)])
                     else None)
      in case map_of CRM_OBJECT_ENDPOINTS object_type of
           None \<Rightarrow> Inl KeyError
         | Some endpoint \<Rightarrow>
             Inr (fetch_data api endpoint (Some params) context @
                  (if soft_delete
                   then fetch_data api endpoint (Some (dict_update params ARCHIVED_PARAM))
                          (Some (dict_display [(SOFT_DELETE_KEY, PyBool True)]))
                   else []),
                  (endpoint, Some params, context) #
                  (if soft_delete
                   then [(endpoint, Some (dict_update params ARCHIVED_PARAM),
                          Some (dict_display [(SOFT_DELETE_KEY, PyBool True)]))]
                   else [])))"

section \<open>The stage-timing pivot: \<open>pivot_stages_properties\<close>\<close>

text \<open>
  One output row: the dictionary display
  \<open>{id_prop: id_val, property_prefix: v, "stage": k.split(property_prefix)[1]}\<close>.
\<close>

definition pivot_row :: "string \<Rightarrow> string \<Rightarrow> pyval \<Rightarrow> string \<times> pyval \<Rightarrow> py_error + pydict" where
  "pivot_row property_prefix id_prop id_val kv =
     (case str_split (fst kv) property_prefix of
        Inl e \<Rightarrow> Inl e
      | Inr parts \<Rightarrow>
          (case list_item parts 1 of
             Inl e \<Rightarrow> Inl e
           | Inr stage \<Rightarrow>
               Inr (dict_display
                 [(id_prop, id_val), (property_prefix, snd kv), (''stage'', PyStr stage)])))"

text \<open>A list comprehension whose element expression can raise stops at the first error.\<close>

fun collect :: "('a \<Rightarrow> py_error + 'b) \<Rightarrow> 'a list \<Rightarrow> py_error + 'b list" where
  "collect f [] = Inr []"
| "collect f (x # xs) =
     (case f x of
        Inl e \<Rightarrow> Inl e
      | Inr y \<Rightarrow> (case collect f xs of Inl e \<Rightarrow> Inl e | Inr ys \<Rightarrow> Inr (y # ys)))"

text \<open>
  The body of the loop over the records: the rows that one record adds to
  \<open>new_data\<close>. A record without a non-null \<open>id_prop\<close> is skipped (\<open>continue\<close>).
\<close>

definition pivot_record :: "string \<Rightarrow> string \<Rightarrow> pydict \<Rightarrow> py_error + pydict list" where
  "pivot_record property_prefix id_prop record =
     (let record_not_null = filter (\<lambda>kv. snd kv \<noteq> PyNone) record
      in case map_of record_not_null id_prop of
           None \<Rightarrow> Inr []
         | Some id_val \<Rightarrow>
             collect (pivot_row property_prefix id_prop id_val)
               (filter (\<lambda>kv. prefix property_prefix (fst kv))
                  (AList.delete id_prop record_not_null)))"

fun pivot_loop :: "pydict list \<Rightarrow> string \<Rightarrow> string \<Rightarrow> pydict list \<Rightarrow> py_error + pydict list" where
  "pivot_loop [] property_prefix id_prop new_data = Inr new_data"
| "pivot_loop (record # data) property_prefix id_prop new_data =
     (case pivot_record property_prefix id_prop record of
        Inl e \<Rightarrow> Inl e
      | Inr rows \<Rightarrow> pivot_loop data property_prefix id_prop (new_data @ rows))"

definition pivot_stages_properties :: "pydict list \<Rightarrow> string \<Rightarrow> string \<Rightarrow> py_error + pydict list" where
  "pivot_stages_properties data property_prefix id_prop = pivot_loop data property_prefix id_prop []"

section \<open>Stage timing: \<open>stages_timing\<close>\<close>

text \<open>
  The chunk that one iteration of the loop takes at cursor \<open>idx\<close>. The separator of
  \<open>split\<close> is the literal \<open>","\<close>, so the split cannot raise; \<open>[:-1]\<close> drops the
  last token.
\<close>

definition props_part_at :: "string \<Rightarrow> nat \<Rightarrow> string" where
  "props_part_at props idx =
     (if length props - idx < MAX_PROPS_LENGTH
      then str_join '','' (butlast (split_from '','' [] (slice props idx (idx + MAX_PROPS_LENGTH))))
      else slice props idx (idx + MAX_PROPS_LENGTH))"

text \<open>
  What a run of the generator has done: the chunks taken by the iterations, the pivoted
  pages yielded, the calls of \<open>fetch_data\<close> issued, and the exception that ended the
  run, if any.
\<close>

record stage_run =
  chunks :: "string list"
  yielded :: "page list"
  fetches :: "fetch_call list"
  raised :: "py_error option"

text \<open>Yielding \<open>f x\<close> for every \<open>x\<close>: the values yielded before the first error, and the error.\<close>

fun yield_each :: "('a \<Rightarrow> py_error + 'b) \<Rightarrow> 'a list \<Rightarrow> 'b list \<times> py_error option" where
  "yield_each f [] = ([], None)"
| "yield_each f (x # xs) =
     (case f x of
        Inl e \<Rightarrow> ([], Some e)
      | Inr y \<Rightarrow> (y # fst (yield_each f xs), snd (yield_each f xs)))"

text \<open>
  The \<open>while\<close> loop. It need not terminate, so it is a partial function: \<open>None\<close> is
  a run that never ends.
\<close>

partial_function (option) stages_loop ::
  "api \<Rightarrow> string \<Rightarrow> bool \<Rightarrow> string \<Rightarrow> nat \<Rightarrow> stage_run \<Rightarrow> stage_run option"
where
  "stages_loop api object_type soft_delete props idx run =
     (if idx < length props then
        (let props_part = props_part_at props idx in
         case fetch_data_for_properties api props_part object_type soft_delete of
           Inl e \<Rightarrow> Some (run\<lparr>chunks := chunks run @ [props_part], raised := Some e\<rparr>)
         | Inr fetched \<Rightarrow>
             (let pivoted = yield_each
                    (\<lambda>data. pivot_stages_properties data STAGE_PROPERTY_PREFIX ''id'')
                    (fst fetched);
                  run' = run\<lparr>chunks := chunks run @ [props_part],
                              yielded := yielded run @ fst pivoted,
                              fetches := fetches run @ snd fetched\<rparr>
              in if snd pivoted \<noteq> None then Some (run'\<lparr>raised := snd pivoted\<rparr>)
                 else stages_loop api object_type soft_delete props
                        (idx + length props_part) run'))
      else Some run)"

definition stages_timing ::
  "(string \<Rightarrow> string list) \<Rightarrow> api \<Rightarrow> string \<Rightarrow> bool \<Rightarrow> stage_run option"
where
  "stages_timing get_property_names api object_type soft_delete =
     (let all_properties = get_property_names object_type;
          date_entered_properties =
            filter (\<lambda>prop. prefix STAGE_PROPERTY_PREFIX prop) all_properties;
          props = str_join '','' date_entered_properties
      in stages_loop api object_type soft_delete props 0
           \<lparr>chunks = [], yielded = [], fetches = [], raised = None\<rparr>)"

section \<open>Web analytics events: \<open>hubspot_events_for_objects\<close>\<close>








section \<open>Closed forms used in the results\<close>

text \<open>
  The rows that \<open>pivot_record\<close> computes for a record when the prefix is not empty;
  \<open>pivot_record_rows\<close> below proves the two equal.
\<close>

definition stage_rows :: "string \<Rightarrow> string \<Rightarrow> pydict \<Rightarrow> pydict list" where
  "stage_rows property_prefix id_prop record =
     (case map_of (filter (\<lambda>kv. snd kv \<noteq> PyNone) record) id_prop of
        None \<Rightarrow> []
      | Some id_val \<Rightarrow>
          map (\<lambda>kv. dict_display [(id_prop, id_val), (property_prefix, snd kv),
                  (''stage'', PyStr (hd (split_from property_prefix []
                     (drop (length property_prefix) (fst kv)))))])
            (filter (\<lambda>kv. prefix property_prefix (fst kv))
               (AList.delete id_prop (filter (\<lambda>kv. snd kv \<noteq> PyNone) record))))"

text \<open>The consecutive windows of \<open>n\<close> characters of a string.\<close>

function windows :: "nat \<Rightarrow> string \<Rightarrow> string list" where
  "windows n s = (if n = 0 \<or> s = [] then [] else take n s # windows n (drop n s))"
  by pat_completeness auto
termination
  by (relation "measure (\<lambda>(n, s). length s)") auto

declare windows.simps [simp del]

section \<open>Property resolution: results\<close>

text \<open>
  C9. Calling \<open>fetch_props\<close> with \<open>props = None\<close> raises an error for every object
  type, every catalog and both values of \<open>include_custom_props\<close>: \<open>None\<close> is not the
  \<open>ALL\<close> sentinel, so \<open>extract_properties_list\<close> iterates over \<open>None\<close> and raises
  \<open>TypeError\<close>; no property string is produced.
\<close>

theorem fetch_props_None_raises:
  "fetch_props get_property_names object_type None include_custom_props = Inl TypeError"
  by (simp add: fetch_props_def resolve_props_def extract_properties_list_def)

lemma as_strings_map_PyStr: "as_strings (map PyStr names) = Inr names"
  by (induction names) simp_all

lemma as_strings_error: "as_strings vs = Inl e \<Longrightarrow> e = TypeError"
  by (induction vs arbitrary: e rule: as_strings.induct) (auto split: sum.splits)

lemma resolve_props_error: "resolve_props g ot props icp = Inl e \<Longrightarrow> e = TypeError"
  by (auto simp: resolve_props_def join_sorted_set_def extract_properties_list_def
      split: sum.splits option.splits if_splits dest: as_strings_error)

lemma str_nat_2000: "str_nat 2000 = ''2000''"
  by code_simp

text \<open>
  C3. \<open>fetch_props\<close> raises the \<open>ValueError\<close> for a property list that is too long
  if and only if the resolved comma-joined string is longer than 2000 characters. The
  message of the error names the limit 2000, the first 200 characters of the string and
  its length. When \<open>fetch_props\<close> returns, it returns the resolved string, and its
  length is at most 2000.
\<close>

theorem fetch_props_too_long_iff:
  "((\<exists>m. fetch_props g ot props icp = Inl (ValueError m)) \<longleftrightarrow>
      (\<exists>s. resolve_props g ot props icp = Inr s \<and> 2000 < length s)) \<and>
   (\<forall>s. resolve_props g ot props icp = Inr s \<longrightarrow> 2000 < length s \<longrightarrow>
      fetch_props g ot props icp = Inl (ValueError (
        ''Your request to Hubspot is too long to process. Maximum allowed query length is 2000 symbols, while your list of properties `'' @
        take 200 s @ ''`... is '' @ str_nat (length s) @
        '' symbols long. Use the `props` argument of the resource to set the list of properties to extract from the endpoint.''))) \<and>
   (\<forall>r. fetch_props g ot props icp = Inr r \<longrightarrow>
      resolve_props g ot props icp = Inr r \<and> length r \<le> 2000)"
proof (cases "resolve_props g ot props icp")
  case (Inl e)
  then have "e = TypeError" by (rule resolve_props_error)
  with Inl show ?thesis by (simp add: fetch_props_def)
next
  case (Inr s)
  then show ?thesis
    by (simp add: fetch_props_def too_long_message_def str_nat_2000 slice_def MAX_PROPS_LENGTH_def)
qed

text \<open>The theorem at a property list with one name of 2001 characters.\<close>

theorem fetch_props_too_long_iff_witness:
  "resolve_props (\<lambda>t. []) ''deal'' (Some [[(''name'', PyStr (replicate 2001 CHR ''a''))]]) False
     = Inr (replicate 2001 CHR ''a'') \<and>
   2000 < length (replicate 2001 CHR ''a'') \<and>
   fetch_props (\<lambda>t. []) ''deal'' (Some [[(''name'', PyStr (replicate 2001 CHR ''a''))]]) False
     = Inl (ValueError (
        ''Your request to Hubspot is too long to process. Maximum allowed query length is 2000 symbols, while your list of properties `'' @
        replicate 200 CHR ''a'' @ ''`... is 2001 symbols long. Use the `props` argument of the resource to set the list of properties to extract from the endpoint.''))"
proof -
  have r: "resolve_props (\<lambda>t. []) ''deal'' (Some [[(''name'', PyStr (replicate 2001 CHR ''a''))]]) False
     = Inr (replicate 2001 CHR ''a'')"
    by (simp add: resolve_props_def ALL_props_def extract_properties_list_def dict_get_def
        join_sorted_set_def)
  have n: "str_nat 2001 = ''2001''" by code_simp
  from fetch_props_too_long_iff [of "\<lambda>t. []" "''deal''"
      "Some [[(''name'', PyStr (replicate 2001 CHR ''a''))]]" False] r
  show ?thesis by (simp add: n)
qed

text \<open>
  C4. For an explicit property list whose descriptors carry the names \<open>names\<close>, the
  string that \<open>fetch_props\<close> resolves is the comma-join of the sorted, duplicate-free
  list of the explicit names together with, when \<open>include_custom_props\<close> is set, the
  catalog names that do not start with \<open>hs_\<close>; \<open>fetch_props\<close> returns that string
  unless it is longer than 2000 characters.
\<close>

theorem fetch_props_explicit_list:
  assumes "map (\<lambda>d. dict_get d ''name'') ds = map PyStr names"
  shows "\<exists>resolved.
     resolved = sorted_list_of_set
       (set names \<union> (if icp then {n \<in> set (g ot). \<not> prefix ''hs_'' n} else {})) \<and>
     sorted resolved \<and> distinct resolved \<and>
     set resolved = set names \<union> (if icp then {n \<in> set (g ot). \<not> prefix ''hs_'' n} else {}) \<and>
     fetch_props g ot (Some ds) icp =
       (if 2000 < length (str_join '','' resolved)
        then Inl (ValueError (too_long_message (str_join '','' resolved)))
        else Inr (str_join '','' resolved))"
proof -
  have "ds \<noteq> ALL_props"
    using assms by (auto simp: ALL_props_def dict_get_def)
  moreover have "set names \<union> {n \<in> set (g ot). \<not> prefix ''hs_'' n}
      = set (names @ filter (\<lambda>prop. \<not> prefix ''hs_'' prop) (g ot))"
    by auto
  ultimately show ?thesis
    using assms
    by (simp add: fetch_props_def resolve_props_def extract_properties_list_def
        join_sorted_set_def as_strings_map_PyStr MAX_PROPS_LENGTH_def
        flip: map_append del: set_append)
qed

text \<open>
  The theorem at object type \<open>deal\<close>, explicit properties \<open>[{"name": "amount"}]\<close>
  and \<open>include_custom_props = False\<close>: the result is \<open>"amount"\<close>.
\<close>

theorem fetch_props_explicit_list_witness:
  "map (\<lambda>d. dict_get d ''name'') [[(''name'', PyStr ''amount'')]] = map PyStr [''amount''] \<and>
   fetch_props (\<lambda>t. [''amount'', ''dealname'', ''hs_object_id'']) ''deal''
     (Some [[(''name'', PyStr ''amount'')]]) False = Inr ''amount''"
  using fetch_props_explicit_list [of "[[(''name'', PyStr ''amount'')]]" "[''amount'']" False
      "\<lambda>t. [''amount'', ''dealname'', ''hs_object_id'']" "''deal''"]
  by (simp add: dict_get_def)

text \<open>The same example for every catalog, and an example with custom properties.\<close>

lemma fetch_props_amount_example:
  "fetch_props g ''deal'' (Some [[(''name'', PyStr ''amount'')]]) False = Inr ''amount''"
  by (simp add: fetch_props_def resolve_props_def ALL_props_def extract_properties_list_def
      dict_get_def join_sorted_set_def MAX_PROPS_LENGTH_def)

lemma fetch_props_custom_example:
  "fetch_props (\<lambda>t. [''dealname'', ''hs_object_id'', ''amount'']) ''deal''
     (Some [[(''name'', PyStr ''pipeline'')], [(''name'', PyStr ''amount'')]]) True
   = Inr ''amount,dealname,pipeline''"
  by code_simp

section \<open>Strings: results\<close>

lemma split_from_nonempty: "split_from sep cur s \<noteq> []"
  by (induction sep cur s rule: split_from.induct) auto

lemma str_join_Cons: "xs \<noteq> [] \<Longrightarrow> str_join sep (x # xs) = x @ sep @ str_join sep xs"
  by (cases xs) simp_all

lemma str_join_split_from: "str_join sep (split_from sep cur s) = cur @ s"
proof (induction sep cur s rule: split_from.induct)
  case (1 sep cur)
  then show ?case by simp
next
  case (2 sep cur c cs)
  show ?case
  proof (cases "sep \<noteq> [] \<and> prefix sep (c # cs)")
    case True
    then have "c # cs = sep @ drop (length sep) (c # cs)"
      by (metis append_eq_conv_conj prefix_def)
    with True 2 show ?thesis
      by (simp add: str_join_Cons split_from_nonempty del: drop_Suc_Cons)
  next
    case False
    with 2 show ?thesis by auto
  qed
qed

lemma str_join_snoc:
  "xs \<noteq> [] \<Longrightarrow> str_join sep (xs @ [x]) = str_join sep xs @ sep @ x"
  by (induction sep xs rule: str_join.induct) simp_all

lemma length_str_join_butlast:
  assumes "sep \<noteq> []" "str_join sep xs \<noteq> []"
  shows "length (str_join sep (butlast xs)) < length (str_join sep xs)"
proof (cases xs rule: rev_cases)
  case Nil
  with assms show ?thesis by simp
next
  case (snoc ys y)
  show ?thesis
  proof (cases "ys = []")
    case True
    with snoc assms show ?thesis by simp
  next
    case False
    with snoc assms show ?thesis by (simp add: str_join_snoc)
  qed
qed

lemma length_drop_last_token:
  assumes "t \<noteq> []"
  shows "length (str_join '','' (butlast (split_from '','' [] t))) < length t"
  using length_str_join_butlast [of "'',''" "split_from '','' [] t"] assms
  by (simp add: str_join_split_from)


section \<open>The stage-timing pivot: results\<close>

lemma split_from_prefix:
  assumes "sep \<noteq> []" "prefix sep s"
  shows "split_from sep [] s = [] # split_from sep [] (drop (length sep) s)"
proof (cases s)
  case Nil
  with assms show ?thesis by simp
next
  case (Cons c cs)
  with assms show ?thesis by simp
qed

lemma pivot_row_prefixed:
  assumes "property_prefix \<noteq> []" "prefix property_prefix (fst kv)"
  shows "pivot_row property_prefix id_prop id_val kv =
           Inr (dict_display [(id_prop, id_val), (property_prefix, snd kv),
                  (''stage'', PyStr (hd (split_from property_prefix []
                     (drop (length property_prefix) (fst kv)))))])"
proof -
  obtain t ts where "split_from property_prefix [] (drop (length property_prefix) (fst kv)) = t # ts"
    using split_from_nonempty by (metis list.exhaust)
  with assms show ?thesis
    by (simp add: pivot_row_def str_split_def split_from_prefix list_item_def)
qed

lemma collect_all_Inr:
  assumes "\<And>x. x \<in> set xs \<Longrightarrow> f x = Inr (g x)"
  shows "collect f xs = Inr (map g xs)"
  using assms by (induction xs) simp_all

lemma pivot_record_rows:
  assumes "property_prefix \<noteq> []"
  shows "pivot_record property_prefix id_prop record = Inr (stage_rows property_prefix id_prop record)"
proof (cases "map_of (filter (\<lambda>kv. snd kv \<noteq> PyNone) record) id_prop")
  case None
  then show ?thesis by (simp add: pivot_record_def stage_rows_def)
next
  case (Some id_val)
  have "collect (pivot_row property_prefix id_prop id_val)
          (filter (\<lambda>kv. prefix property_prefix (fst kv))
             (AList.delete id_prop (filter (\<lambda>kv. snd kv \<noteq> PyNone) record)))
        = Inr (map (\<lambda>kv. dict_display [(id_prop, id_val), (property_prefix, snd kv),
                  (''stage'', PyStr (hd (split_from property_prefix []
                     (drop (length property_prefix) (fst kv)))))])
            (filter (\<lambda>kv. prefix property_prefix (fst kv))
               (AList.delete id_prop (filter (\<lambda>kv. snd kv \<noteq> PyNone) record))))"
    by (rule collect_all_Inr) (simp add: pivot_row_prefixed assms)
  with Some show ?thesis by (simp add: pivot_record_def stage_rows_def)
qed

lemma pivot_loop_rows:
  assumes "property_prefix \<noteq> []"
  shows "pivot_loop data property_prefix id_prop new_data =
           Inr (new_data @ concat (map (stage_rows property_prefix id_prop) data))"
  by (induction data arbitrary: new_data) (simp_all add: pivot_record_rows assms)

lemma pivot_stages_properties_rows:
  assumes "property_prefix \<noteq> []"
  shows "pivot_stages_properties data property_prefix id_prop =
           Inr (concat (map (stage_rows property_prefix id_prop) data))"
  by (simp add: pivot_stages_properties_def pivot_loop_rows assms)

lemma yield_each_all_Inr:
  assumes "\<And>x. x \<in> set xs \<Longrightarrow> f x = Inr (g x)"
  shows "yield_each f xs = (map g xs, None)"
  using assms by (induction xs) simp_all

lemma yield_pivot_default:
  "yield_each (\<lambda>data. pivot_stages_properties data STAGE_PROPERTY_PREFIX ''id'') pages =
     (map (\<lambda>data. concat (map (stage_rows STAGE_PROPERTY_PREFIX ''id'') data)) pages, None)"
  by (rule yield_each_all_Inr) (simp add: pivot_stages_properties_rows STAGE_PROPERTY_PREFIX_def)

text \<open>
  With the default prefix and id field, a record that keeps its id gives one row per
  remaining stage property, in the order of the record; the stage is the rest of the
  property name after the prefix when the prefix does not occur in that rest again.
\<close>

lemma split_from_no_occurrence:
  "\<not> sublist sep s \<Longrightarrow> split_from sep cur s = [cur @ s]"
proof (induction s arbitrary: cur)
  case Nil
  then show ?case by simp
next
  case (Cons c cs)
  have "\<not> prefix sep (c # cs)"
    using Cons.prems by (meson prefix_imp_sublist)
  moreover have "\<not> sublist sep cs"
    using Cons.prems by (meson sublist_Cons_right)
  ultimately show ?case using Cons.IH by simp
qed

lemma pivot_stage_suffix:
  assumes "map_of (filter (\<lambda>kv. snd kv \<noteq> PyNone) record) ''id'' = Some id_val"
    and "\<forall>kv \<in> set record. \<not> sublist STAGE_PROPERTY_PREFIX (drop (length STAGE_PROPERTY_PREFIX) (fst kv))"
  shows "pivot_stages_properties [record] STAGE_PROPERTY_PREFIX ''id'' =
     Inr (map (\<lambda>kv. [(''id'', id_val), (STAGE_PROPERTY_PREFIX, snd kv),
                      (''stage'', PyStr (drop (length STAGE_PROPERTY_PREFIX) (fst kv)))])
            (filter (\<lambda>kv. prefix STAGE_PROPERTY_PREFIX (fst kv))
               (AList.delete ''id'' (filter (\<lambda>kv. snd kv \<noteq> PyNone) record))))"
proof -
  have ne: "STAGE_PROPERTY_PREFIX \<noteq> []" by (simp add: STAGE_PROPERTY_PREFIX_def)
  have disp: "\<And>v s. dict_display [(''id'', id_val), (STAGE_PROPERTY_PREFIX, v), (''stage'', s)]
      = [(''id'', id_val), (STAGE_PROPERTY_PREFIX, v), (''stage'', s)]"
    by (simp add: dict_display_def dict_update_def STAGE_PROPERTY_PREFIX_def)
  have sub: "\<And>kv. kv \<in> set (AList.delete ''id'' (filter (\<lambda>kv. snd kv \<noteq> PyNone) record)) \<Longrightarrow>
      hd (split_from STAGE_PROPERTY_PREFIX [] (drop (length STAGE_PROPERTY_PREFIX) (fst kv)))
        = drop (length STAGE_PROPERTY_PREFIX) (fst kv)"
    using assms(2) by (auto simp: split_from_no_occurrence AList.delete_eq)
  show ?thesis
    using assms(1) sub
    by (simp add: pivot_stages_properties_rows [OF ne] stage_rows_def disp cong: map_cong)
qed

text \<open>The example of the specification.\<close>

lemma pivot_spec_example:
  "pivot_stages_properties
     [[(''id'', PyStr ''1''), (''hs_date_entered_open'', PyStr ''2024-01-01''),
       (''hs_date_entered_closed'', PyNone), (''other'', PyNone)]]
     STAGE_PROPERTY_PREFIX ''id'' =
   Inr [[(''id'', PyStr ''1''), (''hs_date_entered_'', PyStr ''2024-01-01''),
         (''stage'', PyStr ''open'')]]"
  by (simp add: pivot_stages_properties_def pivot_record_def pivot_row_def str_split_def
      list_item_def dict_display_def dict_update_def STAGE_PROPERTY_PREFIX_def AList.delete_eq)

text \<open>
  C7. The row of a stage property carries the id, the value under the prefix and the
  stage, and the specification takes the stage to be the rest of the property name after the
  prefix. \<open>pivot_stages_properties\<close> computes the stage as
  \<open>k.split(property_prefix)[1]\<close>, the text between the first and the second occurrence
  of the prefix: for the property \<open>hs_date_entered_a_hs_date_entered_b\<close> the row has
  the stage \<open>a_\<close>, not \<open>a_hs_date_entered_b\<close>.
\<close>

theorem pivot_stage_cut_at_repeated_prefix:
  "pivot_stages_properties
     [[(''id'', PyStr ''1''),
       (''hs_date_entered_a_hs_date_entered_b'', PyStr ''2024-01-01'')]]
     STAGE_PROPERTY_PREFIX ''id'' =
   Inr [[(''id'', PyStr ''1''), (''hs_date_entered_'', PyStr ''2024-01-01''),
         (''stage'', PyStr ''a_'')]]"
  by (simp add: pivot_stages_properties_def pivot_record_def pivot_row_def str_split_def
      list_item_def dict_display_def dict_update_def STAGE_PROPERTY_PREFIX_def AList.delete_eq)

lemma pivot_loop_append:
  "pivot_loop (xs @ ys) property_prefix id_prop new_data =
     (case pivot_loop xs property_prefix id_prop new_data of
        Inl e \<Rightarrow> Inl e
      | Inr acc \<Rightarrow> pivot_loop ys property_prefix id_prop acc)"
  by (induction xs arbitrary: new_data) (auto split: sum.splits)

lemma pivot_record_not_null:
  "pivot_record property_prefix id_prop (filter (\<lambda>kv. snd kv \<noteq> PyNone) record) =
   pivot_record property_prefix id_prop record"
  by (simp add: pivot_record_def)

lemma pivot_loop_not_null:
  "pivot_loop (map (filter (\<lambda>kv. snd kv \<noteq> PyNone)) data) property_prefix id_prop new_data =
   pivot_loop data property_prefix id_prop new_data"
  by (induction data arbitrary: new_data) (simp_all add: pivot_record_not_null split: sum.splits)

lemma pivot_record_nothing:
  assumes "map_of (filter (\<lambda>kv. snd kv \<noteq> PyNone) record) id_prop = None \<or>
           (\<forall>kv \<in> set (filter (\<lambda>kv. snd kv \<noteq> PyNone) record). \<not> prefix property_prefix (fst kv))"
  shows "pivot_record property_prefix id_prop record = Inr []"
proof -
  have "(\<forall>kv \<in> set (filter (\<lambda>kv. snd kv \<noteq> PyNone) record). \<not> prefix property_prefix (fst kv)) \<Longrightarrow>
        filter (\<lambda>kv. prefix property_prefix (fst kv))
          (AList.delete id_prop (filter (\<lambda>kv. snd kv \<noteq> PyNone) record)) = []"
    by (fastforce simp: filter_empty_conv AList.delete_eq)
  with assms show ?thesis
    by (auto simp: pivot_record_def Let_def split: option.splits)
qed

text \<open>
  C8. The pivot drops the null-valued properties of every record first: a page and the
  page with the null-valued properties removed give the same result. A record whose id
  field is absent after null-dropping is discarded, and a record without a
  stage-prefixed property after null-dropping adds no row: the result is that of the
  page without the record. A page of such records gives the empty result.
\<close>

theorem pivot_drops_nulls_and_idless_records:
  "pivot_stages_properties (map (filter (\<lambda>kv. snd kv \<noteq> PyNone)) data) property_prefix id_prop =
     pivot_stages_properties data property_prefix id_prop \<and>
   (map_of (filter (\<lambda>kv. snd kv \<noteq> PyNone) idless) id_prop = None \<longrightarrow>
      pivot_stages_properties (before @ idless # after) property_prefix id_prop =
      pivot_stages_properties (before @ after) property_prefix id_prop) \<and>
   ((\<forall>kv \<in> set (filter (\<lambda>kv. snd kv \<noteq> PyNone) stageless). \<not> prefix property_prefix (fst kv)) \<longrightarrow>
      pivot_stages_properties (before @ stageless # after) property_prefix id_prop =
      pivot_stages_properties (before @ after) property_prefix id_prop) \<and>
   ((\<forall>record \<in> set data.
       map_of (filter (\<lambda>kv. snd kv \<noteq> PyNone) record) id_prop = None \<or>
       (\<forall>kv \<in> set (filter (\<lambda>kv. snd kv \<noteq> PyNone) record). \<not> prefix property_prefix (fst kv))) \<longrightarrow>
      pivot_stages_properties data property_prefix id_prop = Inr [])"
proof (intro conjI impI)
  show "pivot_stages_properties (map (filter (\<lambda>kv. snd kv \<noteq> PyNone)) data) property_prefix id_prop =
     pivot_stages_properties data property_prefix id_prop"
    by (simp add: pivot_stages_properties_def pivot_loop_not_null)
next
  assume "map_of (filter (\<lambda>kv. snd kv \<noteq> PyNone) idless) id_prop = None"
  then have "pivot_record property_prefix id_prop idless = Inr []"
    by (simp add: pivot_record_nothing)
  then show "pivot_stages_properties (before @ idless # after) property_prefix id_prop =
      pivot_stages_properties (before @ after) property_prefix id_prop"
    by (simp add: pivot_stages_properties_def pivot_loop_append split: sum.splits)
next
  assume "\<forall>kv \<in> set (filter (\<lambda>kv. snd kv \<noteq> PyNone) stageless). \<not> prefix property_prefix (fst kv)"
  then have "pivot_record property_prefix id_prop stageless = Inr []"
    by (simp add: pivot_record_nothing)
  then show "pivot_stages_properties (before @ stageless # after) property_prefix id_prop =
      pivot_stages_properties (before @ after) property_prefix id_prop"
    by (simp add: pivot_stages_properties_def pivot_loop_append split: sum.splits)
next
  assume a: "\<forall>record \<in> set data.
       map_of (filter (\<lambda>kv. snd kv \<noteq> PyNone) record) id_prop = None \<or>
       (\<forall>kv \<in> set (filter (\<lambda>kv. snd kv \<noteq> PyNone) record). \<not> prefix property_prefix (fst kv))"
  have "\<And>new_data. pivot_loop data property_prefix id_prop new_data = Inr new_data"
    using a
  proof (induction data)
    case Nil
    then show ?case by simp
  next
    case (Cons r rs)
    then have "pivot_record property_prefix id_prop r = Inr []"
      by (intro pivot_record_nothing) simp
    with Cons show ?case by simp
  qed
  then show "pivot_stages_properties data property_prefix id_prop = Inr []"
    by (simp add: pivot_stages_properties_def)
qed

text \<open>
  The theorem at a page of a record whose id is null and a record without stage
  properties, after a record that gives one row.
\<close>

theorem pivot_drops_nulls_and_idless_records_witness:
  "map_of (filter (\<lambda>kv. snd kv \<noteq> PyNone)
       [(''id'', PyNone), (''hs_date_entered_open'', PyStr ''2024-01-01'')]) ''id'' = None \<and>
   list_all (\<lambda>kv. \<not> prefix STAGE_PROPERTY_PREFIX (fst kv))
     (filter (\<lambda>kv. snd kv \<noteq> PyNone)
       [(''id'', PyStr ''2''), (''hs_date_entered_won'', PyNone), (''other'', PyStr ''x'')]) \<and>
   pivot_stages_properties
     ([[(''id'', PyStr ''1''), (''hs_date_entered_open'', PyStr ''2024-01-01'')]] @
      [(''id'', PyNone), (''hs_date_entered_open'', PyStr ''2024-01-01'')] # [])
     STAGE_PROPERTY_PREFIX ''id'' =
   pivot_stages_properties
     ([[(''id'', PyStr ''1''), (''hs_date_entered_open'', PyStr ''2024-01-01'')]] @ [])
     STAGE_PROPERTY_PREFIX ''id'' \<and>
   pivot_stages_properties
     ([[(''id'', PyStr ''1''), (''hs_date_entered_open'', PyStr ''2024-01-01'')]] @
      [(''id'', PyStr ''2''), (''hs_date_entered_won'', PyNone), (''other'', PyStr ''x'')] # [])
     STAGE_PROPERTY_PREFIX ''id'' =
   Inr [[(''id'', PyStr ''1''), (''hs_date_entered_'', PyStr ''2024-01-01''),
         (''stage'', PyStr ''open'')]] \<and>
   pivot_stages_properties
     [[(''id'', PyNone), (''hs_date_entered_open'', PyStr ''2024-01-01'')],
      [(''id'', PyStr ''2''), (''hs_date_entered_won'', PyNone), (''other'', PyStr ''x'')]]
     STAGE_PROPERTY_PREFIX ''id'' = Inr []"
proof -
  from pivot_drops_nulls_and_idless_records [of
      "[[(''id'', PyNone), (''hs_date_entered_open'', PyStr ''2024-01-01'')],
        [(''id'', PyStr ''2''), (''hs_date_entered_won'', PyNone), (''other'', PyStr ''x'')]]"
      STAGE_PROPERTY_PREFIX "''id''"
      "[(''id'', PyNone), (''hs_date_entered_open'', PyStr ''2024-01-01'')]"
      "[[(''id'', PyStr ''1''), (''hs_date_entered_open'', PyStr ''2024-01-01'')]]" "[]"
      "[(''id'', PyStr ''2''), (''hs_date_entered_won'', PyNone), (''other'', PyStr ''x'')]"]
  show ?thesis
    by (simp add: pivot_stages_properties_def pivot_record_def pivot_row_def str_split_def
        list_item_def dict_display_def dict_update_def STAGE_PROPERTY_PREFIX_def AList.delete_eq)
qed

section \<open>Live and archived records: results\<close>

lemma map_of_update_same: "map_of (AList.update k v d) k = Some v"
  by (simp add: update_conv')

text \<open>
  C5. With \<open>soft_delete\<close> set, \<open>fetch_data_for_properties\<close> yields the pages of the
  live fetch and after them the pages of the archived fetch (the same endpoint with
  \<open>archived = True\<close>). Every record of an archived page carries \<open>is_deleted = True\<close>,
  and every record of a live page carries \<open>is_deleted = False\<close>, so no live record
  carries the deleted marker.
\<close>

theorem soft_delete_archived_after_live:
  assumes "map_of CRM_OBJECT_ENDPOINTS object_type = Some endpoint"
  shows "\<exists>live archived.
     live = fetch_data api endpoint
              (Some [(''properties'', PyStr props), (''limit'', PyInt 100)])
              (Some [(''is_deleted'', PyBool False)]) \<and>
     archived = fetch_data api endpoint
              (Some [(''properties'', PyStr props), (''limit'', PyInt 100), (''archived'', PyBool True)])
              (Some [(''is_deleted'', PyBool True)]) \<and>
     fetch_data_for_properties api props object_type True =
       Inr (live @ archived,
            [(endpoint, Some [(''properties'', PyStr props), (''limit'', PyInt 100)],
                Some [(''is_deleted'', PyBool False)]),
             (endpoint, Some [(''properties'', PyStr props), (''limit'', PyInt 100),
                              (''archived'', PyBool True)],
                Some [(''is_deleted'', PyBool True)])]) \<and>
     (\<forall>page \<in> set archived. \<forall>record \<in> set page. map_of record ''is_deleted'' = Some (PyBool True)) \<and>
     (\<forall>page \<in> set live. \<forall>record \<in> set page. map_of record ''is_deleted'' = Some (PyBool False))"
  using assms
  by (auto simp: fetch_data_for_properties_def fetch_data_def dict_display_def dict_update_def
      SOFT_DELETE_KEY_def ARCHIVED_PARAM_def map_of_update_same Let_def)

text \<open>
  The theorem at object type \<open>deal\<close>, for a service with one live record (which
  arrives marked as deleted) and one archived record.
\<close>

theorem soft_delete_archived_after_live_witness:
  "map_of CRM_OBJECT_ENDPOINTS ''deal'' = Some ''/crm/v3/objects/deals'' \<and>
   fetch_data_for_properties
     (\<lambda>endpoint params.
        if params = Some [(''properties'', PyStr ''amount''), (''limit'', PyInt 100),
                          (''archived'', PyBool True)]
        then [[[(''id'', PyStr ''2'')]]]
        else [[[(''id'', PyStr ''1''), (''is_deleted'', PyBool True)]]])
     ''amount'' ''deal'' True =
   Inr ([[[(''id'', PyStr ''1''), (''is_deleted'', PyBool False)]],
         [[(''id'', PyStr ''2''), (''is_deleted'', PyBool True)]]],
        [(''/crm/v3/objects/deals'',
          Some [(''properties'', PyStr ''amount''), (''limit'', PyInt 100)],
          Some [(''is_deleted'', PyBool False)]),
         (''/crm/v3/objects/deals'',
          Some [(''properties'', PyStr ''amount''), (''limit'', PyInt 100),
                (''archived'', PyBool True)],
          Some [(''is_deleted'', PyBool True)])])"
proof -
  have ep: "map_of CRM_OBJECT_ENDPOINTS ''deal'' = Some ''/crm/v3/objects/deals''"
    by (simp add: CRM_OBJECT_ENDPOINTS_def)
  from soft_delete_archived_after_live [OF ep, of
      "\<lambda>endpoint params.
        if params = Some [(''properties'', PyStr ''amount''), (''limit'', PyInt 100),
                          (''archived'', PyBool True)]
        then [[[(''id'', PyStr ''2'')]]]
        else [[[(''id'', PyStr ''1''), (''is_deleted'', PyBool True)]]]" "''amount''"]
  show ?thesis
    using ep by (simp add: fetch_data_def dict_update_def)
qed

section \<open>Stage timing: results\<close>

text \<open>
  A tail shorter than the limit loses its last token, so the chunk taken there is
  strictly shorter than the tail; a tail of at least the limit gives a window of exactly
  the limit.
\<close>

lemma props_part_at_short:
  assumes "idx < length props" "length props - idx < MAX_PROPS_LENGTH"
  shows "length (props_part_at props idx) < length props - idx"
proof -
  have "slice props idx (idx + MAX_PROPS_LENGTH) = drop idx props"
    using assms by (simp add: slice_def)
  moreover have "drop idx props \<noteq> []" using assms by simp
  ultimately show ?thesis
    using assms length_drop_last_token [of "drop idx props"]
    by (simp add: props_part_at_def)
qed

lemma props_part_at_full:
  assumes "\<not> length props - idx < MAX_PROPS_LENGTH"
  shows "props_part_at props idx = take MAX_PROPS_LENGTH (drop idx props)"
    and "length (props_part_at props idx) = MAX_PROPS_LENGTH"
  using assms by (simp_all add: props_part_at_def slice_def)

lemma stages_loop_Some_multiple:
  assumes "stages_loop api object_type soft_delete props idx run = Some result"
  shows "map_of CRM_OBJECT_ENDPOINTS object_type \<noteq> None \<longrightarrow> idx \<le> length props \<longrightarrow>
         (length props - idx) mod MAX_PROPS_LENGTH = 0"
proof (rule stages_loop.raw_induct [where P = "\<lambda>api object_type soft_delete props idx run result.
    map_of CRM_OBJECT_ENDPOINTS object_type \<noteq> None \<longrightarrow> idx \<le> length props \<longrightarrow>
      (length props - idx) mod MAX_PROPS_LENGTH = 0", OF _ assms])
  fix loop api object_type soft_delete props idx run result
  assume 1: "\<And>api object_type soft_delete props idx run result.
      loop api object_type soft_delete props idx run = Some result \<Longrightarrow>
      map_of CRM_OBJECT_ENDPOINTS object_type \<noteq> None \<longrightarrow> idx \<le> length props \<longrightarrow>
      (length props - idx) mod MAX_PROPS_LENGTH = 0"
    "(if idx < length props
      then let props_part = props_part_at props idx
           in case fetch_data_for_properties api props_part object_type soft_delete of
                Inl e \<Rightarrow> Some (run\<lparr>chunks := chunks run @ [props_part], raised := Some e\<rparr>)
              | Inr fetched \<Rightarrow>
                  let pivoted = yield_each
                        (\<lambda>data. pivot_stages_properties data STAGE_PROPERTY_PREFIX ''id'')
                        (fst fetched);
                      run' = run\<lparr>chunks := chunks run @ [props_part],
                                  yielded := yielded run @ fst pivoted,
                                  fetches := fetches run @ snd fetched\<rparr>
                  in if snd pivoted \<noteq> None then Some (run'\<lparr>raised := snd pivoted\<rparr>)
                     else loop api object_type soft_delete props (idx + length props_part) run'
      else Some run) = Some result"
  show "map_of CRM_OBJECT_ENDPOINTS object_type \<noteq> None \<longrightarrow> idx \<le> length props \<longrightarrow>
      (length props - idx) mod MAX_PROPS_LENGTH = 0"
  proof (intro impI)
    assume ot: "map_of CRM_OBJECT_ENDPOINTS object_type \<noteq> None" and le: "idx \<le> length props"
    show "(length props - idx) mod MAX_PROPS_LENGTH = 0"
    proof (cases "idx < length props")
      case False
      with le show ?thesis by simp
    next
      case True
      obtain fetched where f: "fetch_data_for_properties api (props_part_at props idx) object_type soft_delete = Inr fetched"
        using ot by (auto simp: fetch_data_for_properties_def Let_def)
      from 1(2) True f have rec: "loop api object_type soft_delete props (idx + length (props_part_at props idx))
           (run\<lparr>chunks := chunks run @ [props_part_at props idx],
                 yielded := yielded run @ fst (yield_each (\<lambda>data. pivot_stages_properties data STAGE_PROPERTY_PREFIX ''id'') (fst fetched)),
                 fetches := fetches run @ snd fetched\<rparr>) = Some result"
        by (simp add: Let_def yield_pivot_default)
      show ?thesis
      proof (cases "length props - idx < MAX_PROPS_LENGTH")
        case short: True
        from props_part_at_short [OF True short]
        have lt: "length (props_part_at props idx) < length props - idx" .
        then have "idx + length (props_part_at props idx) \<le> length props" by simp
        with 1(1) [OF rec] ot
        have "(length props - (idx + length (props_part_at props idx))) mod MAX_PROPS_LENGTH = 0"
          by simp
        moreover have "0 < length props - (idx + length (props_part_at props idx))"
          using lt by simp
        moreover have "length props - (idx + length (props_part_at props idx)) < MAX_PROPS_LENGTH"
          using short by simp
        ultimately show ?thesis by simp
      next
        case full: False
        then have len: "length (props_part_at props idx) = MAX_PROPS_LENGTH"
          by (rule props_part_at_full)
        with full have "idx + length (props_part_at props idx) \<le> length props"
          by (simp add: MAX_PROPS_LENGTH_def)
        with 1(1) [OF rec] ot len
        have "(length props - (idx + MAX_PROPS_LENGTH)) mod MAX_PROPS_LENGTH = 0" by simp
        moreover have "length props - idx = (length props - (idx + MAX_PROPS_LENGTH)) + MAX_PROPS_LENGTH"
          using full by (simp add: MAX_PROPS_LENGTH_def)
        ultimately show ?thesis by (metis mod_add_self2)
      qed
    qed
  qed
qed


text \<open>
  For a known object type the loop returns exactly when the length of the property
  string is a multiple of the limit, and the chunks are then the consecutive windows of
  2000 characters. On every other string the cursor stops before the end and the loop
  never ends.
\<close>

lemma stages_loop_diverges:
  assumes "map_of CRM_OBJECT_ENDPOINTS object_type \<noteq> None"
    and "length props mod MAX_PROPS_LENGTH \<noteq> 0"
  shows "stages_loop api object_type soft_delete props 0 run = None"
proof (cases "stages_loop api object_type soft_delete props 0 run")
  case None
  then show ?thesis .
next
  case (Some result)
  from stages_loop_Some_multiple [OF Some] assms show ?thesis by simp
qed

lemma stages_loop_step_full:
  assumes "map_of CRM_OBJECT_ENDPOINTS object_type \<noteq> None"
    and "idx + MAX_PROPS_LENGTH \<le> length props"
  shows "\<exists>run'. chunks run' = chunks run @ [take MAX_PROPS_LENGTH (drop idx props)] \<and>
           raised run' = raised run \<and>
           stages_loop api object_type soft_delete props idx run =
           stages_loop api object_type soft_delete props (idx + MAX_PROPS_LENGTH) run'"
proof -
  obtain fetched where f: "fetch_data_for_properties api (props_part_at props idx) object_type soft_delete = Inr fetched"
    using assms(1) by (auto simp: fetch_data_for_properties_def Let_def)
  have full: "\<not> length props - idx < MAX_PROPS_LENGTH" using assms(2) by simp
  have lt: "idx < length props" using assms(2) by (simp add: MAX_PROPS_LENGTH_def)
  show ?thesis
    apply (subst stages_loop.simps)
    using f lt props_part_at_full [OF full]
    apply (simp add: Let_def yield_pivot_default)
    apply (rule exI [of _ "run\<lparr>chunks := chunks run @ [take MAX_PROPS_LENGTH (drop idx props)],
                 yielded := yielded run @ fst (yield_each (\<lambda>data. pivot_stages_properties data STAGE_PROPERTY_PREFIX ''id'') (fst fetched)),
                 fetches := fetches run @ snd fetched\<rparr>"])
    apply (simp add: yield_pivot_default)
    done
qed

lemma stages_loop_multiple:
  assumes "map_of CRM_OBJECT_ENDPOINTS object_type \<noteq> None"
    and "length props = idx + k * MAX_PROPS_LENGTH"
  shows "\<exists>result. stages_loop api object_type soft_delete props idx run = Some result \<and>
           chunks result = chunks run @ windows MAX_PROPS_LENGTH (drop idx props) \<and>
           raised result = raised run"
  using assms(2)
proof (induction k arbitrary: idx run)
  case 0
  then show ?case
    by (subst stages_loop.simps) (simp add: windows.simps)
next
  case (Suc k)
  then have le: "idx + MAX_PROPS_LENGTH \<le> length props" by simp
  from stages_loop_step_full [OF assms(1) le, of run api soft_delete]
  obtain run' where r: "chunks run' = chunks run @ [take MAX_PROPS_LENGTH (drop idx props)]"
    "raised run' = raised run"
    "stages_loop api object_type soft_delete props idx run =
     stages_loop api object_type soft_delete props (idx + MAX_PROPS_LENGTH) run'"
    by blast
  from Suc.prems have "length props = (idx + MAX_PROPS_LENGTH) + k * MAX_PROPS_LENGTH" by simp
  from Suc.IH [OF this, of run']
  obtain result where res: "stages_loop api object_type soft_delete props (idx + MAX_PROPS_LENGTH) run' = Some result"
    "chunks result = chunks run' @ windows MAX_PROPS_LENGTH (drop (idx + MAX_PROPS_LENGTH) props)"
    "raised result = raised run'"
    by blast
  have "drop idx props \<noteq> []" using le by (simp add: MAX_PROPS_LENGTH_def)
  then have "windows MAX_PROPS_LENGTH (drop idx props) =
      take MAX_PROPS_LENGTH (drop idx props) # windows MAX_PROPS_LENGTH (drop (idx + MAX_PROPS_LENGTH) props)"
    by (subst windows.simps) (simp add: MAX_PROPS_LENGTH_def add.commute)
  with r res show ?case by simp
qed


lemma length_str_join:
  "length (str_join sep xs) = length (concat xs) + (length xs - 1) * length sep"
  by (induction sep xs rule: str_join.induct) simp_all

lemma concat_windows: "0 < n \<Longrightarrow> concat (windows n s) = s"
proof (induction n s rule: windows.induct)
  case (1 n s)
  then show ?case by (subst windows.simps) auto
qed

lemma windows_at_least_two:
  assumes "0 < n" "n < length s"
  shows "2 \<le> length (windows n s)"
proof -
  have "s \<noteq> []" "drop n s \<noteq> []" using assms by auto
  then have "windows n s = take n s # take n (drop n s) # windows n (drop n (drop n s))"
    using assms(1) by (subst windows.simps, subst windows.simps) simp
  then show ?thesis by simp
qed

lemma stages_loop_oversized_never_rejoins:
  assumes "map_of CRM_OBJECT_ENDPOINTS object_type \<noteq> None"
    and "MAX_PROPS_LENGTH < length props"
    and "stages_loop api object_type soft_delete props 0 run = Some result"
    and "chunks run = []"
  shows "str_join '','' (chunks result) \<noteq> props"
proof -
  from stages_loop_Some_multiple [OF assms(3)] assms(1)
  have "length props mod MAX_PROPS_LENGTH = 0" by simp
  then have "length props = 0 + (length props div MAX_PROPS_LENGTH) * MAX_PROPS_LENGTH"
    using div_mult_mod_eq [of "length props" MAX_PROPS_LENGTH] by simp
  then obtain k where "length props = 0 + k * MAX_PROPS_LENGTH" ..
  from stages_loop_multiple [OF assms(1) this, of api soft_delete run] assms(3,4)
  have c: "chunks result = windows MAX_PROPS_LENGTH props" by simp
  have "2 \<le> length (windows MAX_PROPS_LENGTH props)"
    using assms(2) by (intro windows_at_least_two) (simp_all add: MAX_PROPS_LENGTH_def)
  then have "length (str_join '','' (windows MAX_PROPS_LENGTH props)) > length props"
    by (simp add: length_str_join concat_windows MAX_PROPS_LENGTH_def)
  with c show ?thesis by auto
qed

text \<open>
  C2. The specification has the chunking loop terminate for every comma-joined property
  string. For the catalog of the single stage property \<open>hs_date_entered_a\<close> the loop
  of \<open>stages_timing\<close> never ends: the tail is shorter than the limit, dropping its
  last token leaves the empty chunk, and the cursor stays at 0.
\<close>

theorem stages_timing_never_ends:
  "stages_timing (\<lambda>t. [''hs_date_entered_a'']) api ''deal'' soft_delete = None"
  by (simp add: stages_timing_def STAGE_PROPERTY_PREFIX_def stages_loop_diverges
      CRM_OBJECT_ENDPOINTS_def MAX_PROPS_LENGTH_def)

text \<open>
  C1. The specification has the chunks of an oversized property string, joined with
  commas, give the string back, with no property name split between chunks. For two stage
  properties of 1000 and 2999 characters the joined string has 4000 characters; the loop
  takes the two windows of 2000 characters, the first of which ends inside the second
  property name, and the two chunks joined with a comma are not the property string.
\<close>

theorem stages_timing_splits_property_name:
  "map_option chunks
     (stages_timing
        (\<lambda>t. [''hs_date_entered_'' @ replicate 984 CHR ''a'',
              ''hs_date_entered_'' @ replicate 2983 CHR ''b''])
        api ''deal'' soft_delete)
   = Some [''hs_date_entered_'' @ replicate 984 CHR ''a'' @ '','' @
             ''hs_date_entered_'' @ replicate 983 CHR ''b'',
           replicate 2000 CHR ''b''] \<and>
   str_join '',''
     [''hs_date_entered_'' @ replicate 984 CHR ''a'' @ '','' @
        ''hs_date_entered_'' @ replicate 983 CHR ''b'',
      replicate 2000 CHR ''b'']
   \<noteq> str_join '',''
       [''hs_date_entered_'' @ replicate 984 CHR ''a'',
        ''hs_date_entered_'' @ replicate 2983 CHR ''b'']"
proof
  let ?props = "''hs_date_entered_'' @ replicate 984 CHR ''a'' @ '','' @
                ''hs_date_entered_'' @ replicate 2983 CHR ''b''"
  let ?init = "\<lparr>chunks = [], yielded = [], fetches = [], raised = None\<rparr>"
  have ot: "map_of CRM_OBJECT_ENDPOINTS ''deal'' \<noteq> None"
    by (simp add: CRM_OBJECT_ENDPOINTS_def)
  have len: "length ?props = 0 + 2 * MAX_PROPS_LENGTH"
    by (simp add: MAX_PROPS_LENGTH_def)
  from stages_loop_multiple [OF ot len, of api soft_delete ?init]
  obtain result where r: "stages_loop api ''deal'' soft_delete ?props 0 ?init = Some result"
    "chunks result = windows MAX_PROPS_LENGTH ?props"
    by auto
  have t: "take 2000 ?props = ''hs_date_entered_'' @ replicate 984 CHR ''a'' @ '','' @
             ''hs_date_entered_'' @ replicate 983 CHR ''b''"
    by simp
  have d: "drop 2000 ?props = replicate 2000 CHR ''b''"
    by simp
  have "windows 2000 ?props = [take 2000 ?props, replicate 2000 CHR ''b'']"
    apply (subst windows.simps)
    apply (simp only: d)
    apply (subst windows.simps)
    apply (subst windows.simps)
    apply simp
    done
  with r t show "map_option chunks
     (stages_timing
        (\<lambda>t. [''hs_date_entered_'' @ replicate 984 CHR ''a'',
              ''hs_date_entered_'' @ replicate 2983 CHR ''b''])
        api ''deal'' soft_delete)
   = Some [''hs_date_entered_'' @ replicate 984 CHR ''a'' @ '','' @
             ''hs_date_entered_'' @ replicate 983 CHR ''b'',
           replicate 2000 CHR ''b'']"
    by (simp add: stages_timing_def STAGE_PROPERTY_PREFIX_def MAX_PROPS_LENGTH_def)
next
  let ?joined = "str_join '',''
     [''hs_date_entered_'' @ replicate 984 CHR ''a'' @ '','' @
        ''hs_date_entered_'' @ replicate 983 CHR ''b'',
      replicate 2000 CHR ''b'']"
  let ?props = "str_join '',''
       [''hs_date_entered_'' @ replicate 984 CHR ''a'',
        ''hs_date_entered_'' @ replicate 2983 CHR ''b'']"
  have "length ?joined = 4001" by simp
  moreover have "length ?props = 4000" by simp
  ultimately have "length ?joined \<noteq> length ?props" by simp
  then show "?joined \<noteq> ?props" by (rule contrapos_nn) (rule arg_cong)
qed

text \<open>
  C10. When no name of the catalog starts with \<open>hs_date_entered_\<close>, the joined stage
  property string is empty and the loop body never runs: \<open>stages_timing\<close> returns
  with no chunk, no page yielded and no call of \<open>fetch_data\<close>.
\<close>

theorem stages_timing_no_stage_properties:
  assumes "\<forall>prop \<in> set (get_property_names object_type). \<not> prefix STAGE_PROPERTY_PREFIX prop"
  shows "stages_timing get_property_names api object_type soft_delete =
           Some \<lparr>chunks = [], yielded = [], fetches = [], raised = None\<rparr>"
proof -
  have "filter (\<lambda>prop. prefix STAGE_PROPERTY_PREFIX prop) (get_property_names object_type) = []"
    using assms by (simp add: filter_empty_conv)
  then show ?thesis
    by (simp add: stages_timing_def) (subst stages_loop.simps, simp)
qed

text \<open>The theorem at a catalog of two properties that are not stage properties.\<close>

theorem stages_timing_no_stage_properties_witness:
  "list_all (\<lambda>prop. \<not> prefix STAGE_PROPERTY_PREFIX prop)
     ((\<lambda>t. [''amount'', ''dealname'']) ''deal'') \<and>
   stages_timing (\<lambda>t. [''amount'', ''dealname'']) (\<lambda>endpoint params. [[[(''id'', PyStr ''1'')]]]) ''deal'' True =
           Some \<lparr>chunks = [], yielded = [], fetches = [], raised = None\<rparr>"
  using stages_timing_no_stage_properties [of "\<lambda>t. [''amount'', ''dealname'']" "''deal''"
      "\<lambda>endpoint params. [[[(''id'', PyStr ''1'')]]]" True]
  by (simp add: STAGE_PROPERTY_PREFIX_def)

section \<open>Web analytics events: results\<close>





end
